theory Spec2Isabelle
  imports Complex_Main "HOL-Library.Sublist" "HOL-Library.Word"
begin

section \<open>Errors raised by the Python code\<close>

text \<open>
  Every exception the embedded functions can raise is a constructor here; a function
  that may raise returns \<open>py_error + 'a\<close>, with \<open>Inl\<close> for the exception.
\<close>

datatype py_error =
    NotImplementedError
  | ValueError string
  | AssertionError
  | IndexError
  | UnboundLocalError
  | ZeroDivisionError

section \<open>The MetaOptimizer base class (optimizers/core/metaclasses.py)\<close>

text \<open>
  The base class has no fields of its own, so the state of an optimizer instance is a
  type parameter \<open>'s\<close>. A method takes the instance and returns the value it returns
  (\<open>None\<close> is Python's \<open>None\<close>) together with the instance afterwards, or the
  exception it raises.
\<close>

definition step :: "'s \<Rightarrow> 'd \<Rightarrow> 'd \<Rightarrow> py_error + ('r \<times> 's)" where
  "step self data_train data_val = Inl NotImplementedError"

definition adapt_search_space :: "'s \<Rightarrow> 'g \<Rightarrow> 'sc option \<Rightarrow> py_error + ('r \<times> 's)" where
  "adapt_search_space self search_space scope = Inl NotImplementedError"

definition new_epoch :: "'s \<Rightarrow> int \<Rightarrow> 'r option \<times> 's" where
  "new_epoch self epoch = (None, self)"

definition before_training :: "'s \<Rightarrow> 'r option \<times> 's" where
  "before_training self = (None, self)"

definition after_training :: "'s \<Rightarrow> 'r option \<times> 's" where
  "after_training self = (None, self)"

definition get_final_architecture :: "'s \<Rightarrow> py_error + ('r \<times> 's)" where
  "get_final_architecture self = Inl NotImplementedError"

text \<open>The body of \<open>get_op_optimizer\<close> is its docstring alone: it returns \<open>None\<close>.\<close>

definition get_op_optimizer :: "'s \<Rightarrow> 'o option \<times> 's" where
  "get_op_optimizer self = (None, self)"


section \<open>The average meters (utils/utils.py)\<close>

text \<open>
  The values a meter holds are Python numbers: ints, whose arithmetic is exact, or
  floats, whose arithmetic rounds and is not associative. The arithmetic on them is
  therefore a parameter of which nothing is assumed: the \<open>0\<close> that \<open>reset\<close> stores,
  \<open>+\<close>, the product \<open>val * n\<close> with the weight, and the true division
  \<open>sum / count\<close> by a counter that is not zero. The weights \<open>n\<close> and the counters are
  Python ints, which are exact.
\<close>

record 'v py_arith =
  num_zero :: 'v
  num_add :: "'v \<Rightarrow> 'v \<Rightarrow> 'v"
  num_times :: "'v \<Rightarrow> int \<Rightarrow> 'v"
  num_div :: "'v \<Rightarrow> int \<Rightarrow> 'v"









text \<open>
  The sum a meter accumulates, in the order and the arithmetic of the code: starting
  from the stored \<open>0\<close>, each call adds \<open>val * n\<close> to what the calls before it gave.
\<close>

definition weighted_sum :: "'v py_arith \<Rightarrow> 'v \<Rightarrow> ('v \<times> int) list \<Rightarrow> 'v" where
  "weighted_sum A s0 calls = foldl (\<lambda>s (v, n). num_add A s (num_times A v n)) s0 calls"

section \<open>Python sequences\<close>

text \<open>\<open>range(m)\<close> for an int \<open>m\<close>: empty when \<open>m \<le> 0\<close>.\<close>

definition py_range :: "int \<Rightarrow> int list" where
  "py_range m = map int [0..<nat m]"

text \<open>
  A slice bound is clipped as Python and numpy do: a negative bound counts from the
  end, and every bound is cut to the length of the sequence.
\<close>

definition slice_bound :: "nat \<Rightarrow> int \<Rightarrow> nat" where
  "slice_bound len i = (if i < 0 then nat (max (i + int len) 0) else min (nat i) len)"

text \<open>\<open>xs[a:b]\<close> and \<open>xs[a:]\<close>.\<close>

definition py_slice :: "'a list \<Rightarrow> int \<Rightarrow> int \<Rightarrow> 'a list" where
  "py_slice xs a b =
     (let lo = slice_bound (length xs) a; hi = slice_bound (length xs) b
      in take (hi - lo) (drop lo xs))"

definition py_slice_from :: "'a list \<Rightarrow> int \<Rightarrow> 'a list" where
  "py_slice_from xs a = drop (slice_bound (length xs) a) xs"

text \<open>\<open>np.concatenate\<close> refuses an empty sequence of arrays.\<close>

definition np_concatenate :: "'a list list \<Rightarrow> py_error + 'a list" where
  "np_concatenate arrays =
     (if arrays = [] then Inl (ValueError ''need at least one array to concatenate'')
      else Inr (concat arrays))"

section \<open>K-fold index generation (utils/utils.py)\<close>

text \<open>
  The first \<open>k - 1\<close> folds are slices of \<open>fold_size\<close> consecutive indices, the last
  fold takes the rest. \<open>//\<close> is floor division, which is \<open>div\<close> on \<open>int\<close>.
\<close>

definition fold_indices :: "int \<Rightarrow> int \<Rightarrow> int list list" where
  "fold_indices n k =
     (let indices = py_range n;
          fold_size = n div k
      in map (\<lambda>i. py_slice indices (i * fold_size) ((i + 1) * fold_size)) (py_range (k - 1))
         @ [py_slice_from indices ((k - 1) * fold_size)])"

text \<open>
  The loop \<open>for i in range(k)\<close>, with \<open>kfold_indices\<close> as the accumulator.
  \<open>fold_indices\<close> has \<open>k\<close> entries, so \<open>fold_indices[j]\<close> is in range for every
  \<open>j\<close> of \<open>range(k)\<close>.
\<close>

fun kfold_loop ::
  "int list list \<Rightarrow> int \<Rightarrow> int list \<Rightarrow> (int list \<times> int list) list
     \<Rightarrow> py_error + (int list \<times> int list) list" where
  "kfold_loop fi k [] kfold_indices = Inr kfold_indices"
| "kfold_loop fi k (i # rest) kfold_indices =
     (let training_indices = map (\<lambda>j. fi ! nat j) (filter (\<lambda>j. j \<noteq> i) (py_range k));
          validation_indices = fi ! nat i
      in case np_concatenate training_indices of
           Inl e \<Rightarrow> Inl e
         | Inr tr \<Rightarrow> kfold_loop fi k rest (kfold_indices @ [(tr, validation_indices)]))"

definition generate_kfold :: "int \<Rightarrow> int \<Rightarrow> py_error + (int list \<times> int list) list" where
  "generate_kfold n k =
     (if \<not> k \<ge> 2 then Inl AssertionError
      else kfold_loop (fold_indices n k) k (py_range k) [])"

text \<open>
  The interval of indices that fold \<open>j\<close> of \<open>K\<close> folds over \<open>N\<close> examples holds;
  used to state what \<open>fold_indices\<close> computes.
\<close>

definition fold_hi :: "nat \<Rightarrow> nat \<Rightarrow> nat \<Rightarrow> nat" where
  "fold_hi N K j = (if j + 1 < K then (j + 1) * (N div K) else N)"

definition fold_nat :: "nat \<Rightarrow> nat \<Rightarrow> nat \<Rightarrow> nat list" where
  "fold_nat N K j = [j * (N div K) ..< fold_hi N K j]"

section \<open>Cross validation of a predictor (utils/utils.py)\<close>

text \<open>
  \<open>xs[j]\<close> for an int \<open>j\<close>: a negative index counts from the end, an index out of
  range raises \<open>IndexError\<close>. \<open>py_select xs js\<close> is the comprehension
  \<open>[xs[j] for j in js]\<close>.
\<close>

definition py_get :: "'a list \<Rightarrow> int \<Rightarrow> py_error + 'a" where
  "py_get xs j =
     (let len = int (length xs); i = (if j < 0 then j + len else j)
      in if 0 \<le> i \<and> i < len then Inr (xs ! nat i) else Inl IndexError)"

fun py_select :: "'a list \<Rightarrow> int list \<Rightarrow> py_error + 'a list" where
  "py_select xs [] = Inr []"
| "py_select xs (j # js) =
     (case py_get xs j of
        Inl e \<Rightarrow> Inl e
      | Inr x \<Rightarrow> (case py_select xs js of Inl e \<Rightarrow> Inl e | Inr ys \<Rightarrow> Inr (x # ys)))"

text \<open>
  What \<open>cross_validation\<close> calls outside this file is a parameter: the predictor's
  \<open>fit\<close> and \<open>query\<close> (the predictor \<open>'p\<close> is mutated by \<open>fit\<close>, and either may
  raise), the number of axes of the prediction and its mean over axis 0, the
  correlation and error measures of numpy, scipy and sklearn, rounding, and \<open>np.mean\<close>.
\<close>

record ('x, 'y, 'p, 'q, 's) cv_env =
  fit :: "'p \<Rightarrow> 'x list \<Rightarrow> 'y list \<Rightarrow> py_error + 'p"
  query :: "'p \<Rightarrow> 'x list \<Rightarrow> py_error + 'q"
  shape_len :: "'q \<Rightarrow> nat"
  mean_axis0 :: "'q \<Rightarrow> 'q"
  abs_corrcoef :: "'y list \<Rightarrow> 'q \<Rightarrow> 's"
  mean_abs_diff :: "'q \<Rightarrow> 'y list \<Rightarrow> 's"
  mean_squared_error :: "'y list \<Rightarrow> 'q \<Rightarrow> 's"
  spearmanr :: "'y list \<Rightarrow> 'q \<Rightarrow> 's"
  kendalltau :: "'y list \<Rightarrow> 'q \<Rightarrow> 's"
  np_round :: "'q \<Rightarrow> nat \<Rightarrow> 'q"
  np_mean :: "'s list \<Rightarrow> 's"

text \<open>
  The chain of \<open>if\<close>/\<open>elif\<close> on \<open>score_metric\<close> has no \<open>else\<close>: with any other
  name \<open>score_i\<close> is never assigned (\<open>None\<close> here) and appending it raises
  \<open>UnboundLocalError\<close>.
\<close>

definition score_of ::
  "('x, 'y, 'p, 'q, 's) cv_env \<Rightarrow> string \<Rightarrow> 'y list \<Rightarrow> 'q \<Rightarrow> 's option" where
  "score_of E score_metric yval_i ypred_i =
     (if score_metric = ''pearson'' then Some (abs_corrcoef E yval_i ypred_i)
      else if score_metric = ''mae'' then Some (mean_abs_diff E ypred_i yval_i)
      else if score_metric = ''rmse'' then Some (mean_squared_error E yval_i ypred_i)
      else if score_metric = ''spearman'' then Some (spearmanr E yval_i ypred_i)
      else if score_metric = ''kendalltau'' then Some (kendalltau E yval_i ypred_i)
      else if score_metric = ''kt_2dec'' then Some (kendalltau E yval_i (np_round E ypred_i 2))
      else if score_metric = ''kt_1dec'' then Some (kendalltau E yval_i (np_round E ypred_i 1))
      else None)"

text \<open>
  The loop over \<open>split_indices\<close>, with \<open>validation_score\<close> as the accumulator and
  the predictor threaded through. The source selects \<open>xval_i\<close> and \<open>yval_i\<close> by
  \<open>train_indices\<close>.
\<close>

fun cv_loop ::
  "('x, 'y, 'p, 'q, 's) cv_env \<Rightarrow> 'x list \<Rightarrow> 'y list \<Rightarrow> string
     \<Rightarrow> (int list \<times> int list) list \<Rightarrow> 'p \<Rightarrow> 's list \<Rightarrow> py_error + ('s list \<times> 'p)" where
  "cv_loop E xtrain ytrain score_metric [] predictor validation_score =
     Inr (validation_score, predictor)"
| "cv_loop E xtrain ytrain score_metric ((train_indices, validation_indices) # rest)
       predictor validation_score =
     (case py_select xtrain train_indices of Inl e \<Rightarrow> Inl e | Inr xtrain_i \<Rightarrow>
      case py_select ytrain train_indices of Inl e \<Rightarrow> Inl e | Inr ytrain_i \<Rightarrow>
      case py_select xtrain train_indices of Inl e \<Rightarrow> Inl e | Inr xval_i \<Rightarrow>
      case py_select ytrain train_indices of Inl e \<Rightarrow> Inl e | Inr yval_i \<Rightarrow>
      case fit E predictor xtrain_i ytrain_i of Inl e \<Rightarrow> Inl e | Inr predictor' \<Rightarrow>
      case query E predictor' xval_i of Inl e \<Rightarrow> Inl e | Inr ypred \<Rightarrow>
        let ypred_i = (if shape_len E ypred > 1 then mean_axis0 E ypred else ypred)
        in case score_of E score_metric yval_i ypred_i of
             None \<Rightarrow> Inl UnboundLocalError
           | Some score_i \<Rightarrow>
               cv_loop E xtrain ytrain score_metric rest predictor'
                 (validation_score @ [score_i]))"

definition cross_validation ::
  "('x, 'y, 'p, 'q, 's) cv_env \<Rightarrow> 'x list \<Rightarrow> 'y list \<Rightarrow> 'p
     \<Rightarrow> (int list \<times> int list) list \<Rightarrow> string \<Rightarrow> py_error + ('s \<times> 'p)" where
  "cross_validation E xtrain ytrain predictor split_indices score_metric =
     (case cv_loop E xtrain ytrain score_metric split_indices predictor [] of
        Inl e \<Rightarrow> Inl e
      | Inr (validation_score, predictor') \<Rightarrow> Inr (np_mean E validation_score, predictor'))"

text \<open>
  The computation as the claim words it, on the \<open>train_indices\<close> of the splits alone.
  One fold: the inputs and the targets selected by \<open>train_indices\<close> are what the
  predictor is fitted on, the same inputs are what it is queried on, and the same
  targets are what its prediction is scored against. The folds run in order, each on
  the predictor the one before it left, and the result is the mean of their scores.
\<close>

definition train_fold ::
  "('x, 'y, 'p, 'q, 's) cv_env \<Rightarrow> 'x list \<Rightarrow> 'y list \<Rightarrow> string \<Rightarrow> 'p \<Rightarrow> int list
     \<Rightarrow> py_error + ('s \<times> 'p)" where
  "train_fold E xtrain ytrain score_metric predictor train_indices =
     (case py_select xtrain train_indices of Inl e \<Rightarrow> Inl e | Inr x_sel \<Rightarrow>
      case py_select ytrain train_indices of Inl e \<Rightarrow> Inl e | Inr y_sel \<Rightarrow>
      case fit E predictor x_sel y_sel of Inl e \<Rightarrow> Inl e | Inr fitted \<Rightarrow>
      case query E fitted x_sel of Inl e \<Rightarrow> Inl e | Inr ypred \<Rightarrow>
      case score_of E score_metric y_sel
             (if shape_len E ypred > 1 then mean_axis0 E ypred else ypred) of
        None \<Rightarrow> Inl UnboundLocalError
      | Some score \<Rightarrow> Inr (score, fitted))"

fun train_folds ::
  "('x, 'y, 'p, 'q, 's) cv_env \<Rightarrow> 'x list \<Rightarrow> 'y list \<Rightarrow> string \<Rightarrow> int list list \<Rightarrow> 'p
     \<Rightarrow> py_error + ('s list \<times> 'p)" where
  "train_folds E xtrain ytrain score_metric [] predictor = Inr ([], predictor)"
| "train_folds E xtrain ytrain score_metric (train_indices # rest) predictor =
     (case train_fold E xtrain ytrain score_metric predictor train_indices of
        Inl e \<Rightarrow> Inl e
      | Inr (score, fitted) \<Rightarrow>
          (case train_folds E xtrain ytrain score_metric rest fitted of
             Inl e \<Rightarrow> Inl e
           | Inr (scores, predictor') \<Rightarrow> Inr (score # scores, predictor')))"

definition cv_on_train_indices ::
  "('x, 'y, 'p, 'q, 's) cv_env \<Rightarrow> 'x list \<Rightarrow> 'y list \<Rightarrow> 'p \<Rightarrow> int list list \<Rightarrow> string
     \<Rightarrow> py_error + ('s \<times> 'p)" where
  "cv_on_train_indices E xtrain ytrain predictor train_indices_list score_metric =
     (case train_folds E xtrain ytrain score_metric train_indices_list predictor of
        Inl e \<Rightarrow> Inl e
      | Inr (scores, predictor') \<Rightarrow> Inr (np_mean E scores, predictor'))"

section \<open>Data loaders (utils/utils.py)\<close>









section \<open>Model size (utils/utils.py)\<close>











section \<open>Optimizer variants\<close>

text \<open>
  The variants (Bananas, OneShotNASOptimizer, RandomNASOptimizer) override
  \<open>adapt_search_space\<close> in files that are not among the sources at hand; the runner
  only calls it. Search spaces are mutable objects that may be shared, so they live in
  a store: a list of graphs, the address of an object being its index. A reference
  held by the program is the address of an allocated object, that is, below the length
  of the store.
\<close>

type_synonym 'g store = "'g list"

text \<open>
  Modelled from the spec: \<open>deepcopy\<close> of the search space, the first half of the
  pattern section 4.1 gives for \<open>adapt_search_space\<close> ("deep-copy the space before
  mutating it"). The copy is a new object, allocated behind every existing one.
\<close>

definition deepcopy :: "'g store \<Rightarrow> nat \<Rightarrow> 'g store \<times> nat" where
  "deepcopy st a = (st @ [st ! a], length st)"

text \<open>
  Modelled from the spec: \<open>search_space.update(...)\<close>, which the docstring of the
  base class names as the way to modify a search space; it changes the object at the
  address in place.
\<close>

definition graph_update :: "'g store \<Rightarrow> nat \<Rightarrow> ('g \<Rightarrow> 'g) \<Rightarrow> 'g store" where
  "graph_update st a f = st[a := f (st ! a)]"

text \<open>The attribute in which a variant keeps the search space it has adapted.\<close>

record variant_state =
  vs_search_space :: "nat option"

text \<open>
  Modelled from the spec: \<open>adapt_search_space\<close> of an optimizer variant, whose code
  is missing, after section 4.1 and the docstring of the base class: deep-copy the
  space, modify the copy (\<open>modify scope\<close> is what the variant does to the graph within
  the scope), store the modified copy and leave the caller's original untouched.
\<close>

definition variant_adapt_search_space ::
  "('sc option \<Rightarrow> 'g \<Rightarrow> 'g) \<Rightarrow> variant_state \<Rightarrow> 'g store \<Rightarrow> nat \<Rightarrow> 'sc option
     \<Rightarrow> 'g store \<times> variant_state" where
  "variant_adapt_search_space modify self st search_space scope =
     (let (st1, copy) = deepcopy st search_space;
          st2 = graph_update st1 copy (modify scope)
      in (st2, self\<lparr>vs_search_space := Some copy\<rparr>))"

section \<open>Theorems\<close>

subsection \<open>The abstract operations of the base class\<close>

text \<open>
  C3. In the MetaOptimizer base class each required operation (step,
  adapt_search_space, get_final_architecture) raises NotImplementedError whatever the
  instance and the arguments are: the base class gives them no default behaviour.
\<close>

theorem base_required_operations_raise:
  "step self data_train data_val = Inl NotImplementedError
   \<and> adapt_search_space self search_space scope = Inl NotImplementedError
   \<and> get_final_architecture self = Inl NotImplementedError"
  by (simp add: step_def adapt_search_space_def get_final_architecture_def)

text \<open>
  C4. The default hooks new_epoch(epoch), before_training() and after_training() are
  no-ops: for every optimizer state and every integer epoch each of them returns None
  and leaves the state as it was.
\<close>

theorem base_hooks_are_noops:
  "new_epoch self epoch = (None, self)
   \<and> before_training self = (None, self)
   \<and> after_training self = (None, self)"
  by (simp add: new_epoch_def before_training_def after_training_def)

subsection \<open>The average meters\<close>






text \<open>
  Where the arithmetic is exact, as on Python ints, the accumulated sum is the sum of
  the products \<open>val * n\<close> in the mathematical sense.
\<close>

lemma weighted_sum_exact:
  "weighted_sum \<lparr>num_zero = 0, num_add = (+), num_times = (\<lambda>v n. v * of_int n),
                  num_div = (\<lambda>s c. s / of_int c)\<rparr> s0 calls
     = (s0 :: real) + (\<Sum>(v, n) \<leftarrow> calls. v * of_int n)"
  by (induction calls arbitrary: s0) (auto simp: weighted_sum_def)



subsection \<open>K-fold index generation\<close>

lemma fold_hi_le: "0 < K \<Longrightarrow> j < K \<Longrightarrow> fold_hi N K j \<le> N"
proof -
  assume "0 < K" "j < K"
  have "(j + 1) * (N div K) \<le> K * (N div K)" if "j + 1 < K"
    using that by (intro mult_le_mono1) simp
  also have "K * (N div K) \<le> N" by simp
  finally show ?thesis by (simp add: fold_hi_def)
qed

lemma fold_lo_le_hi: "j < K \<Longrightarrow> j * (N div K) \<le> fold_hi N K j"
proof -
  assume "j < K"
  have "j * (N div K) \<le> K * (N div K)" using \<open>j < K\<close> by (intro mult_le_mono1) simp
  also have "\<dots> \<le> N" by simp
  finally show ?thesis by (simp add: fold_hi_def)
qed

lemma fold_hi_le_lo: "j < j' \<Longrightarrow> j' < K \<Longrightarrow> fold_hi N K j \<le> j' * (N div K)"
proof -
  assume "j < j'" "j' < K"
  then have "Suc j \<le> j'" "j + 1 < K" by simp_all
  from mult_le_mono1 [OF this(1), of "N div K"] this(2) show ?thesis
    by (simp add: fold_hi_def)
qed

lemma set_fold_nat: "set (fold_nat N K j) = {j * (N div K) ..< fold_hi N K j}"
  by (simp add: fold_nat_def)

lemma fold_nat_disjoint:
  assumes "j \<noteq> j'" "j < K" "j' < K"
  shows "set (fold_nat N K j) \<inter> set (fold_nat N K j') = {}"
proof (cases "j < j'")
  case True
  from fold_hi_le_lo [OF True assms(3), of N] show ?thesis
    by (auto simp: set_fold_nat)
next
  case False
  with assms(1) have "j' < j" by simp
  from fold_hi_le_lo [OF this assms(2), of N] show ?thesis
    by (auto simp: set_fold_nat)
qed

lemma fold_nat_cover:
  assumes "0 < K"
  shows "(\<Union>j \<in> {0..<K}. set (fold_nat N K j)) = {0..<N}"
proof (intro equalityI subsetI)
  fix x assume "x \<in> (\<Union>j \<in> {0..<K}. set (fold_nat N K j))"
  then obtain j where "j < K" "x < fold_hi N K j" by (auto simp: set_fold_nat)
  with fold_hi_le [OF assms, of j N] show "x \<in> {0..<N}" by simp
next
  fix x assume "x \<in> {0..<N}"
  then have x: "x < N" by simp
  show "x \<in> (\<Union>j \<in> {0..<K}. set (fold_nat N K j))"
  proof (cases "(K - 1) * (N div K) \<le> x")
    case True
    with x assms have "x \<in> set (fold_nat N K (K - 1))"
      by (simp add: set_fold_nat fold_hi_def)
    with assms show ?thesis by force
  next
    case False
    then have lt: "x < (K - 1) * (N div K)" by simp
    then have pos: "0 < N div K" by (cases "N div K = 0") auto
    let ?j = "x div (N div K)"
    have j: "?j < K - 1" using lt pos
      by (simp add: div_less_iff_less_mult mult.commute)
    have "?j * (N div K) \<le> x" by simp
    moreover have "x < (?j + 1) * (N div K)"
      using pos by (metis add.commute dividend_less_times_div mult.commute plus_1_eq_Suc mult_Suc) 
    moreover from j have "?j + 1 < K" by simp
    ultimately have "x \<in> set (fold_nat N K ?j)"
      by (simp add: set_fold_nat fold_hi_def)
    with j show ?thesis by force
  qed
qed

lemma py_range_int: "py_range (int N) = map int [0..<N]"
  by (simp add: py_range_def)

lemma slice_bound_int: "a \<le> len \<Longrightarrow> slice_bound len (int a) = a"
  by (simp add: slice_bound_def)

lemma py_slice_range:
  assumes "a \<le> b" "b \<le> N"
  shows "py_slice (py_range (int N)) (int a) (int b) = map int [a..<b]"
proof -
  from assms have "a \<le> N" by simp
  have "take (b - a) (drop a (map int [0..<N])) = map int [a..<b]"
    using assms by (simp add: take_map drop_map take_upt)
  then show ?thesis
    using assms \<open>a \<le> N\<close> by (simp add: py_slice_def py_range_int slice_bound_int)
qed

lemma py_slice_from_range:
  assumes "a \<le> N"
  shows "py_slice_from (py_range (int N)) (int a) = map int [a..<N]"
  using assms by (simp add: py_slice_from_def py_range_int slice_bound_int drop_map)

lemma fold_indices_eq:
  assumes "2 \<le> K"
  shows "fold_indices (int N) (int K) = map (\<lambda>j. map int (fold_nat N K j)) [0..<K]"
proof -
  have fs: "int N div int K = int (N div K)" by (simp add: zdiv_int)
  have K1: "int K - 1 = int (K - 1)" using assms by simp
  have first: "py_slice (py_range (int N)) (int j * int (N div K)) ((int j + 1) * int (N div K))
                 = map int (fold_nat N K j)" if "j < K - 1" for j
  proof -
    from that have j: "j + 1 < K" "j < K" by simp_all
    have le: "j * (N div K) \<le> (j + 1) * (N div K)" by simp
    have "(j + 1) * (N div K) \<le> N"
      using fold_hi_le [of K j N] j by (simp add: fold_hi_def)
    from py_slice_range [OF le this] j(1) show ?thesis
      by (simp add: fold_nat_def fold_hi_def algebra_simps)
  qed
  have last: "py_slice_from (py_range (int N)) (int (K - 1) * int (N div K))
                 = map int (fold_nat N K (K - 1))"
  proof -
    have "(K - 1) * (N div K) \<le> N"
      using fold_lo_le_hi [of "K - 1" K N] assms by (simp add: fold_hi_def)
    from py_slice_from_range [OF this] assms show ?thesis
      by (simp add: fold_nat_def fold_hi_def)
  qed
  have split: "[0..<K] = [0..<K - 1] @ [K - 1]"
    using assms by (metis Suc_diff_1 less_eq_Suc_le not_less_eq_eq numeral_2_eq_2 upt_Suc_append zero_le zero_less_Suc less_le_trans)
  have "fold_indices (int N) (int K)
          = map (\<lambda>j. map int (fold_nat N K j)) [0..<K - 1] @ [map int (fold_nat N K (K - 1))]"
    unfolding fold_indices_def Let_def fs K1 py_range_int [of "K - 1"]
    using first last by (simp add: comp_def)
  also have "\<dots> = map (\<lambda>j. map int (fold_nat N K j)) [0..<K]"
    by (subst split) simp
  finally show ?thesis .
qed

lemma kfold_loop_eq:
  assumes "2 \<le> k"
  shows "kfold_loop fi k is acc =
           Inr (acc @ map (\<lambda>i. (concat (map (\<lambda>j. fi ! nat j)
                                     (filter (\<lambda>j. j \<noteq> i) (py_range k))), fi ! nat i)) is)"
proof (induction "is" arbitrary: acc)
  case Nil
  then show ?case by simp
next
  case (Cons i rest)
  have "0 \<in> set (py_range k)" "1 \<in> set (py_range k)"
    using assms by (auto simp: py_range_def image_iff intro: bexI [of _ "0::nat"] bexI [of _ "1::nat"])
  then have "\<exists>j \<in> set (py_range k). j \<noteq> i"
    by (cases "i = 0") (force intro: bexI [of _ 1], force intro: bexI [of _ 0])
  then have "filter (\<lambda>j. j \<noteq> i) (py_range k) \<noteq> []"
    by (simp add: filter_empty_conv)
  then show ?case
    by (simp add: np_concatenate_def Cons.IH)
qed

lemma generate_kfold_nat:
  assumes "2 \<le> K"
  shows "generate_kfold (int N) (int K) =
           Inr (map (\<lambda>i. (map int (concat (map (fold_nat N K) (filter (\<lambda>j. j \<noteq> i) [0..<K]))),
                           map int (fold_nat N K i))) [0..<K])"
proof -
  let ?fi = "map (\<lambda>j. map int (fold_nat N K j)) [0..<K]"
  have k: "2 \<le> int K" using assms by simp
  have va: "?fi ! nat (int i) = map int (fold_nat N K i)" if "i < K" for i
    using that by simp
  have flt: "filter (\<lambda>j. j \<noteq> int i) (map int [0..<K]) = map int (filter (\<lambda>j. j \<noteq> i) [0..<K])"
    for i by (simp add: filter_map comp_def)
  have tr: "concat (map (\<lambda>j. ?fi ! nat j) (filter (\<lambda>j. j \<noteq> int i) (map int [0..<K])))
              = map int (concat (map (fold_nat N K) (filter (\<lambda>j. j \<noteq> i) [0..<K])))" for i
  proof -
    have e: "map ((!) ?fi) (filter (\<lambda>j. j \<noteq> i) [0..<K])
            = map (\<lambda>j. map int (fold_nat N K j)) (filter (\<lambda>j. j \<noteq> i) [0..<K])"
      by (rule map_cong) auto
    have "concat (map (\<lambda>j. ?fi ! nat j) (filter (\<lambda>j. j \<noteq> int i) (map int [0..<K])))
            = concat (map ((!) ?fi) (filter (\<lambda>j. j \<noteq> i) [0..<K]))"
      unfolding flt map_map comp_def nat_int ..
    also have "\<dots> = concat (map (\<lambda>j. map int (fold_nat N K j)) (filter (\<lambda>j. j \<noteq> i) [0..<K]))"
      unfolding e ..
    also have "\<dots> = map int (concat (map (fold_nat N K) (filter (\<lambda>j. j \<noteq> i) [0..<K])))"
      unfolding map_concat map_map comp_def ..
    finally show ?thesis .
  qed
  have "generate_kfold (int N) (int K) =
          Inr (map (\<lambda>i. (concat (map (\<lambda>j. ?fi ! nat j) (filter (\<lambda>j. j \<noteq> i) (py_range (int K)))),
                          ?fi ! nat i)) (py_range (int K)))"
    using k by (simp add: generate_kfold_def kfold_loop_eq [OF k] fold_indices_eq [OF assms])
  also have "map (\<lambda>i. (concat (map (\<lambda>j. ?fi ! nat j) (filter (\<lambda>j. j \<noteq> i) (py_range (int K)))),
                          ?fi ! nat i)) (py_range (int K))
        = map (\<lambda>i. (map int (concat (map (fold_nat N K) (filter (\<lambda>j. j \<noteq> i) [0..<K]))),
                           map int (fold_nat N K i))) [0..<K]"
    unfolding py_range_int [of K] map_map comp_def tr
    by (rule map_cong) simp_all
  finally show ?thesis .
qed

lemma training_set:
  "set (concat (map (fold_nat N K) (filter (\<lambda>j. j \<noteq> i) [0..<K])))
     = (\<Union>j \<in> {0..<K} - {i}. set (fold_nat N K j))"
  by auto

lemma training_validation_disjoint:
  assumes "i < K"
  shows "set (concat (map (fold_nat N K) (filter (\<lambda>j. j \<noteq> i) [0..<K])))
           \<inter> set (fold_nat N K i) = {}"
proof -
  have "set (fold_nat N K j) \<inter> set (fold_nat N K i) = {}" if "j \<in> {0..<K} - {i}" for j
    using that assms by (intro fold_nat_disjoint) auto
  then show ?thesis unfolding training_set by blast
qed

lemma training_validation_cover:
  assumes "i < K"
  shows "set (concat (map (fold_nat N K) (filter (\<lambda>j. j \<noteq> i) [0..<K])))
           \<union> set (fold_nat N K i) = {0..<N}"
proof -
  have "(\<Union>j \<in> {0..<K} - {i}. set (fold_nat N K j)) \<union> set (fold_nat N K i)
          = (\<Union>j \<in> {0..<K}. set (fold_nat N K j))"
    using assms by auto
  with fold_nat_cover [of K N] assms show ?thesis unfolding training_set by simp
qed

lemma length_fold_nat:
  "j < K \<Longrightarrow> length (fold_nat N K j) = (if j + 1 < K then N div K else N - (K - 1) * (N div K))"
  by (auto simp: fold_nat_def fold_hi_def dest: less_antisym)

text \<open>
  C8. For every n at least 0 and k at least 2, generate_kfold(n, k) returns a list of
  exactly k pairs (training indices, validation indices); in each pair the two index
  sets are disjoint and their union is {0, ..., n-1}; each of the first k-1 validation
  folds has n // k entries and the last has n - (k-1) * (n // k).
\<close>

theorem generate_kfold_partition:
  assumes "0 \<le> n" and "2 \<le> k"
  shows "\<exists>folds. generate_kfold n k = Inr folds
           \<and> int (length folds) = k
           \<and> (\<forall>(tr, va) \<in> set folds. set tr \<inter> set va = {} \<and> set tr \<union> set va = {0..<n})
           \<and> (\<forall>i. int i < k - 1 \<longrightarrow> int (length (snd (folds ! i))) = n div k)
           \<and> int (length (snd (folds ! nat (k - 1)))) = n - (k - 1) * (n div k)"
proof -
  obtain N K where n: "n = int N" and k: "k = int K"
    using assms by (metis nonneg_int_cases zero_le_numeral order_trans)
  from assms(2) k have K: "2 \<le> K" by simp
  define tr where "tr i = concat (map (fold_nat N K) (filter (\<lambda>j. j \<noteq> i) [0..<K]))" for i
  define folds where "folds = map (\<lambda>i. (map int (tr i), map int (fold_nat N K i))) [0..<K]"
  have run: "generate_kfold n k = Inr folds"
    unfolding n k folds_def tr_def by (rule generate_kfold_nat [OF K])
  have len: "int (length folds) = k" by (simp add: folds_def k)
  have part: "set t \<inter> set v = {} \<and> set t \<union> set v = {0..<n}" if "(t, v) \<in> set folds" for t v
  proof -
    from that obtain i where i: "i < K" and t: "t = map int (tr i)"
      and v: "v = map int (fold_nat N K i)"
      by (auto simp: folds_def)
    have "set t \<inter> set v = int ` (set (tr i) \<inter> set (fold_nat N K i))"
      unfolding t v set_map by (simp add: image_Int)
    also have "\<dots> = {}"
      using training_validation_disjoint [OF i, of N] by (simp add: tr_def)
    finally have d: "set t \<inter> set v = {}" .
    have "set t \<union> set v = int ` (set (tr i) \<union> set (fold_nat N K i))"
      unfolding t v set_map by (simp add: image_Un)
    also have "\<dots> = int ` {0..<N}"
      using training_validation_cover [OF i, of N] by (simp add: tr_def)
    also have "\<dots> = {0..<n}"
      by (simp add: n image_int_atLeastLessThan)
    finally show ?thesis using d by simp
  qed
  have fs: "n div k = int (N div K)" by (simp add: n k zdiv_int)
  have first: "int (length (snd (folds ! i))) = n div k" if "int i < k - 1" for i
  proof -
    from that k have "i + 1 < K" "i < K" by simp_all
    then show ?thesis by (simp add: folds_def length_fold_nat fs)
  qed
  have "(K - 1) * (N div K) \<le> N"
    using fold_lo_le_hi [of "K - 1" K N] K by (simp add: fold_hi_def)
  then have "int (N - (K - 1) * (N div K)) = n - (k - 1) * (n div k)"
    using K by (simp add: n k zdiv_int of_nat_diff)
  moreover have "nat (k - 1) = K - 1" using K k by simp
  ultimately have lst: "int (length (snd (folds ! nat (k - 1)))) = n - (k - 1) * (n div k)"
    using K by (simp add: folds_def length_fold_nat)
  from run len part first lst show ?thesis by blast
qed

theorem generate_kfold_partition_witness:
  "(0::int) \<le> 7 \<and> (2::int) \<le> 3
   \<and> (\<exists>folds. generate_kfold 7 3 = Inr folds
         \<and> int (length folds) = 3
         \<and> (\<forall>(tr, va) \<in> set folds. set tr \<inter> set va = {} \<and> set tr \<union> set va = {0..<7})
         \<and> (\<forall>i. int i < 3 - 1 \<longrightarrow> int (length (snd (folds ! i))) = 7 div 3)
         \<and> int (length (snd (folds ! nat (3 - 1)))) = 7 - (3 - 1) * (7 div 3))"
  using generate_kfold_partition [of 7 3] by simp

subsection \<open>Cross validation\<close>

lemma cv_loop_train_folds:
  "cv_loop E xtrain ytrain score_metric splits predictor acc =
     (case train_folds E xtrain ytrain score_metric (map fst splits) predictor of
        Inl e \<Rightarrow> Inl e
      | Inr (scores, predictor') \<Rightarrow> Inr (acc @ scores, predictor'))"
proof (induction splits arbitrary: predictor acc)
  case Nil
  then show ?case by simp
next
  case (Cons s splits)
  obtain tr va where s: "s = (tr, va)" by (cases s)
  show ?case
    unfolding s
    by (simp add: Cons.IH train_fold_def split: sum.splits option.splits prod.splits)
qed

lemma cross_validation_refines:
  "cross_validation E xtrain ytrain predictor split_indices score_metric
     = cv_on_train_indices E xtrain ytrain predictor (map fst split_indices) score_metric"
  by (simp add: cross_validation_def cv_on_train_indices_def cv_loop_train_folds
      split: sum.splits prod.splits)

lemma cross_validation_one_split:
  assumes "py_select xtrain train_indices = Inr x_sel"
    and "py_select ytrain train_indices = Inr y_sel"
    and "fit E predictor x_sel y_sel = Inr fitted"
    and "query E fitted x_sel = Inr ypred"
    and "score_of E score_metric y_sel
           (if shape_len E ypred > 1 then mean_axis0 E ypred else ypred) = Some score"
  shows "cross_validation E xtrain ytrain predictor [(train_indices, validation_indices)]
           score_metric = Inr (np_mean E [score], fitted)"
  using assms by (simp add: cross_validation_def)

text \<open>
  C9. In cross_validation the inputs and targets that query and score the predictor
  (xval_i, yval_i) are selected by train_indices, not by validation_indices. The
  function computes what the computation on the train_indices alone computes: each
  fold fits the predictor on the inputs and targets selected by train_indices, queries
  it on those same inputs and scores the prediction against those same targets. For a
  single split this is spelled out on the calls themselves. So the validation_indices
  of the splits have no effect on the result: two lists of splits with the same
  train_indices give the same mean validation score (and predictor, or exception).
\<close>

theorem cross_validation_ignores_validation_indices:
  "cross_validation E xtrain ytrain predictor split_indices score_metric
     = cv_on_train_indices E xtrain ytrain predictor (map fst split_indices) score_metric
   \<and> (py_select xtrain train_indices = Inr x_sel
        \<and> py_select ytrain train_indices = Inr y_sel
        \<and> fit E predictor x_sel y_sel = Inr fitted
        \<and> query E fitted x_sel = Inr ypred
        \<and> score_of E score_metric y_sel
             (if shape_len E ypred > 1 then mean_axis0 E ypred else ypred) = Some score
      \<longrightarrow> cross_validation E xtrain ytrain predictor [(train_indices, validation_indices)]
            score_metric = Inr (np_mean E [score], fitted))
   \<and> (map fst split_indices = map fst split_indices'
      \<longrightarrow> cross_validation E xtrain ytrain predictor split_indices score_metric
          = cross_validation E xtrain ytrain predictor split_indices' score_metric)"
proof (intro conjI impI)
  show "cross_validation E xtrain ytrain predictor split_indices score_metric
     = cv_on_train_indices E xtrain ytrain predictor (map fst split_indices) score_metric"
    by (rule cross_validation_refines)
next
  assume a: "py_select xtrain train_indices = Inr x_sel
        \<and> py_select ytrain train_indices = Inr y_sel
        \<and> fit E predictor x_sel y_sel = Inr fitted
        \<and> query E fitted x_sel = Inr ypred
        \<and> score_of E score_metric y_sel
             (if shape_len E ypred > 1 then mean_axis0 E ypred else ypred) = Some score"
  from a have p1: "py_select xtrain train_indices = Inr x_sel" by blast
  from a have p2: "py_select ytrain train_indices = Inr y_sel" by blast
  from a have p3: "fit E predictor x_sel y_sel = Inr fitted" by blast
  from a have p4: "query E fitted x_sel = Inr ypred" by blast
  from a have p5: "score_of E score_metric y_sel
             (if shape_len E ypred > 1 then mean_axis0 E ypred else ypred) = Some score"
    by blast
  show "cross_validation E xtrain ytrain predictor [(train_indices, validation_indices)]
            score_metric = Inr (np_mean E [score], fitted)"
    by (rule cross_validation_one_split [OF p1 p2 p3 p4 p5])
next
  assume "map fst split_indices = map fst split_indices'"
  then show "cross_validation E xtrain ytrain predictor split_indices score_metric
          = cross_validation E xtrain ytrain predictor split_indices' score_metric"
    by (simp add: cross_validation_refines)
qed

theorem cross_validation_ignores_validation_indices_witness:
  "cross_validation
         \<lparr>fit = (\<lambda>p xs ys. Inr ys), query = (\<lambda>p xs. Inr (map (\<lambda>x. x + sum_list p) xs)),
           shape_len = (\<lambda>q. 1), mean_axis0 = (\<lambda>q. q), abs_corrcoef = (\<lambda>ys q. 0),
           mean_abs_diff = (\<lambda>q ys. sum_list (map2 (\<lambda>a b. \<bar>a - b\<bar>) q ys)),
           mean_squared_error = (\<lambda>ys q. 0), spearmanr = (\<lambda>ys q. 0),
           kendalltau = (\<lambda>ys q. 0), np_round = (\<lambda>q d. q), np_mean = sum_list\<rparr>
         [10, 20, 30 :: int] [1, 2, 3 :: int] [] [([0, 1], [2::int])] ''mae''
     = Inr (33, [1, 2])
   \<and> map fst [([0, 1], [2::int]), ([-1::int], [0, 1])] = map fst [([0, 1], [0::int]), ([-1], [])]
   \<and> cross_validation
         \<lparr>fit = (\<lambda>p xs ys. Inr ys), query = (\<lambda>p xs. Inr (map (\<lambda>x. x + sum_list p) xs)),
           shape_len = (\<lambda>q. 1), mean_axis0 = (\<lambda>q. q), abs_corrcoef = (\<lambda>ys q. 0),
           mean_abs_diff = (\<lambda>q ys. sum_list (map2 (\<lambda>a b. \<bar>a - b\<bar>) q ys)),
           mean_squared_error = (\<lambda>ys q. 0), spearmanr = (\<lambda>ys q. 0),
           kendalltau = (\<lambda>ys q. 0), np_round = (\<lambda>q d. q), np_mean = sum_list\<rparr>
         [10, 20, 30 :: int] [1, 2, 3 :: int] [] [([0, 1], [2]), ([-1], [0, 1])] ''mae''
     = cross_validation
         \<lparr>fit = (\<lambda>p xs ys. Inr ys), query = (\<lambda>p xs. Inr (map (\<lambda>x. x + sum_list p) xs)),
           shape_len = (\<lambda>q. 1), mean_axis0 = (\<lambda>q. q), abs_corrcoef = (\<lambda>ys q. 0),
           mean_abs_diff = (\<lambda>q ys. sum_list (map2 (\<lambda>a b. \<bar>a - b\<bar>) q ys)),
           mean_squared_error = (\<lambda>ys q. 0), spearmanr = (\<lambda>ys q. 0),
           kendalltau = (\<lambda>ys q. 0), np_round = (\<lambda>q d. q), np_mean = sum_list\<rparr>
         [10, 20, 30 :: int] [1, 2, 3 :: int] [] [([0, 1], [0]), ([-1], [])] ''mae''"
proof -
  let ?E = "\<lparr>fit = (\<lambda>p xs ys. Inr ys), query = (\<lambda>p xs. Inr (map (\<lambda>x. x + sum_list p) xs)),
           shape_len = (\<lambda>q. 1), mean_axis0 = (\<lambda>q. q), abs_corrcoef = (\<lambda>ys q. 0),
           mean_abs_diff = (\<lambda>q ys. sum_list (map2 (\<lambda>a b. \<bar>a - b\<bar>) q ys)),
           mean_squared_error = (\<lambda>ys q. 0), spearmanr = (\<lambda>ys q. 0),
           kendalltau = (\<lambda>ys q. 0), np_round = (\<lambda>q d. q), np_mean = sum_list\<rparr>
           :: (int, int, int list, int list, int) cv_env"
  let ?A = "[([0, 1], [2::int]), ([-1::int], [0, 1])]"
  let ?B = "[([0, 1], [0::int]), ([-1::int], [])]"
  note inst = cross_validation_ignores_validation_indices
      [of ?E "[10, 20, 30]" "[1, 2, 3]" "[]" ?A "''mae''" "[0, 1]" "[10, 20]" "[1, 2]"
          "[1, 2]" "[13, 23]" 33 "[2]" ?B]
  have h: "map fst ?A = map fst ?B" by simp
  have sel: "py_select [10, 20, 30 :: int] [0, 1] = Inr [10, 20]
        \<and> py_select [1, 2, 3 :: int] [0, 1] = Inr [1, 2]
        \<and> fit ?E [] [10, 20] [1, 2] = Inr [1, 2]
        \<and> query ?E [1, 2] [10, 20] = Inr [13, 23]
        \<and> score_of ?E ''mae'' [1, 2]
             (if shape_len ?E [13, 23] > 1 then mean_axis0 ?E [13, 23] else [13, 23]) = Some 33"
    by (simp add: py_get_def score_of_def)
  have one: "cross_validation ?E [10, 20, 30] [1, 2, 3] [] [([0, 1], [2])] ''mae''
               = Inr (33, [1, 2])"
    using inst sel by simp
  have eq: "cross_validation ?E [10, 20, 30] [1, 2, 3] [] ?A ''mae''
              = cross_validation ?E [10, 20, 30] [1, 2, 3] [] ?B ''mae''"
    using inst h by blast
  show ?thesis by (intro conjI one h eq)
qed

subsection \<open>Data loaders\<close>








subsection \<open>Model size\<close>










subsection \<open>Adapting a search space\<close>

lemma deepcopy_frame:
  "a < length st \<Longrightarrow> deepcopy st a = (st1, c) \<Longrightarrow>
     c = length st \<and> length st1 = Suc (length st) \<and> take (length st) st1 = st \<and> st1 ! c = st ! a"
  by (auto simp: deepcopy_def)

lemma graph_update_frame:
  "length st \<le> c \<Longrightarrow> take (length st) (graph_update st1 c f) = take (length st) st1"
  by (simp add: graph_update_def)

text \<open>
  C1. adapt_search_space(search_space, scope) of an optimizer variant leaves the
  caller's search-space object unchanged: the modification is applied to a deep copy,
  a new object, so after the call the argument graph, and every other object that
  existed before the call, is what it was; the optimizer keeps the modified copy, not
  the caller's object.
\<close>

theorem variant_adapt_search_space_frame:
  assumes "search_space < length st"
  shows "fst (variant_adapt_search_space modify self st search_space scope) ! search_space
           = st ! search_space
       \<and> take (length st) (fst (variant_adapt_search_space modify self st search_space scope)) = st
       \<and> vs_search_space (snd (variant_adapt_search_space modify self st search_space scope))
           = Some (length st)
       \<and> fst (variant_adapt_search_space modify self st search_space scope) ! length st
           = modify scope (st ! search_space)"
proof -
  let ?r = "variant_adapt_search_space modify self st search_space scope"
  have r: "?r = ((st @ [st ! search_space])[length st := modify scope (st ! search_space)],
                 self\<lparr>vs_search_space := Some (length st)\<rparr>)"
    by (simp add: variant_adapt_search_space_def deepcopy_def graph_update_def)
  have tk: "take (length st) (fst ?r) = st" by (simp add: r)
  have "fst ?r ! search_space = take (length st) (fst ?r) ! search_space"
    using assms by simp
  with tk have same: "fst ?r ! search_space = st ! search_space" by simp
  have new: "fst ?r ! length st = modify scope (st ! search_space)"
    by (simp add: r)
  from same tk new show ?thesis by (simp add: r)
qed

theorem variant_adapt_search_space_frame_witness:
  "(0::nat) < length [[1::nat, 2], [3]]
   \<and> fst (variant_adapt_search_space (\<lambda>scope g. 0 # g) \<lparr>vs_search_space = None\<rparr>
            [[1::nat, 2], [3]] 0 (None :: string option)) ! 0 = [1, 2]
   \<and> take 2 (fst (variant_adapt_search_space (\<lambda>scope g. 0 # g) \<lparr>vs_search_space = None\<rparr>
            [[1::nat, 2], [3]] 0 (None :: string option))) = [[1, 2], [3]]
   \<and> vs_search_space (snd (variant_adapt_search_space (\<lambda>scope g. 0 # g)
            \<lparr>vs_search_space = None\<rparr> [[1::nat, 2], [3]] 0 (None :: string option))) = Some 2
   \<and> fst (variant_adapt_search_space (\<lambda>scope g. 0 # g) \<lparr>vs_search_space = None\<rparr>
            [[1::nat, 2], [3]] 0 (None :: string option)) ! 2 = [0, 1, 2]"
proof -
  have h: "(0::nat) < length [[1::nat, 2], [3]]" by simp
  from variant_adapt_search_space_frame [OF h, of "\<lambda>scope g. 0 # g"
      "\<lparr>vs_search_space = None\<rparr>" "None :: string option"] h
  show ?thesis by (simp add: numeral_2_eq_2)
qed

end
